theory Spec2Isabelle
  imports Complex_Main
begin

section \<open>The Redux store of app/index.jsx\<close>

text \<open>
  The store has three slices, \<open>ui\<close>, \<open>counter\<close> and \<open>todos\<close>, each built with
  \<open>createSlice\<close>. A case reducer is written as a mutation of an Immer draft; the model
  passes the slice state in and returns the next one. Immer drafts are trees, so a list of
  todos is a list of record values, and a write through an element found in a list is a
  write at that element's position.

  Names that clash with Isabelle keywords or constants carry a suffix: the fields
  \<open>id\<close> and \<open>done\<close> of a todo are \<open>id_todo\<close> and \<open>done_todo\<close>, the field \<open>value\<close> of
  the counter is \<open>value_counter\<close>.

  The counter holds a JavaScript number, a double: \<open>JSNumber\<close> below, with the
  addition of IEEE 754. \<open>createdAt\<close>, the integer that \<open>Date.now()\<close> returned, is only
  stored, and is an \<open>int\<close>.
\<close>

subsection \<open>JavaScript numbers\<close>

text \<open>
  A number is \<open>NaN\<close>, an infinity, the negative zero, or \<open>Finite q\<close>, the double whose
  value is the rational \<open>q\<close> (\<open>Finite 0\<close> is the positive zero). The finite doubles are
  the multiples of \<open>2^-1074\<close> with at most 53 significant bits, below \<open>2^1024\<close> in
  magnitude.
\<close>

datatype JSNumber = NaN | PosInfinity | NegInfinity | NegZero | Finite rat

text \<open>The number of bits of a natural number.\<close>

fun bitLength :: "nat \<Rightarrow> nat" where
  "bitLength n = (if n = 0 then 0 else Suc (bitLength (n div 2)))"

declare bitLength.simps [simp del]

text \<open>
  Rounding a natural number to 53 significant bits, to the nearest and, halfway between
  two, to the one with an even significand.
\<close>

definition roundSig :: "nat \<Rightarrow> nat" where
  "roundSig n =
     (if n < 2 ^ 53 then n
      else (let k = bitLength n - 53; q = n div 2 ^ k; r = n mod 2 ^ k
            in (if 2 ^ k < 2 * r \<or> (2 * r = 2 ^ k \<and> odd q) then q + 1 else q) * 2 ^ k))"

text \<open>
  The double nearest to \<open>x\<close>, for \<open>x\<close> a multiple of \<open>2^-1074\<close>, as every sum of two
  doubles is: the magnitude is counted in units of \<open>2^-1074\<close> and rounded; a result of
  \<open>2^1024\<close> or more is an infinity.
\<close>

definition roundDouble :: "rat \<Rightarrow> JSNumber" where
  "roundDouble x =
     (let n = roundSig (nat \<lfloor>\<bar>x\<bar> * 2 ^ 1074\<rfloor>)
      in if 2 ^ 2098 \<le> n then (if x < 0 then NegInfinity else PosInfinity)
         else Finite (sgn x * of_nat n / 2 ^ 1074))"

text \<open>
  \<open>x + y\<close> on numbers: \<open>NaN\<close> is absorbing, opposite infinities give \<open>NaN\<close>, the sum
  of two zeros is negative only when both are, and two finite numbers give their exact
  sum, rounded.
\<close>

fun jsAdd :: "JSNumber \<Rightarrow> JSNumber \<Rightarrow> JSNumber" where
  "jsAdd NaN y = NaN"
| "jsAdd x NaN = NaN"
| "jsAdd PosInfinity NegInfinity = NaN"
| "jsAdd NegInfinity PosInfinity = NaN"
| "jsAdd PosInfinity y = PosInfinity"
| "jsAdd x PosInfinity = PosInfinity"
| "jsAdd NegInfinity y = NegInfinity"
| "jsAdd x NegInfinity = NegInfinity"
| "jsAdd NegZero y = y"
| "jsAdd x NegZero = x"
| "jsAdd (Finite a) (Finite b) = roundDouble (a + b)"

fun jsNeg :: "JSNumber \<Rightarrow> JSNumber" where
  "jsNeg NaN = NaN"
| "jsNeg PosInfinity = NegInfinity"
| "jsNeg NegInfinity = PosInfinity"
| "jsNeg NegZero = Finite 0"
| "jsNeg (Finite a) = (if a = 0 then NegZero else Finite (- a))"

text \<open>\<open>x - y\<close> is \<open>x + (-y)\<close>.\<close>

definition jsSub :: "JSNumber \<Rightarrow> JSNumber \<Rightarrow> JSNumber" where
  "jsSub x y = jsAdd x (jsNeg y)"

text \<open>
  The values of \<open>JSNumber\<close> that are doubles: a finite one is a multiple of
  \<open>2^-1074\<close> that rounding leaves as it is, below \<open>2^1024\<close>.
\<close>

fun isDouble :: "JSNumber \<Rightarrow> bool" where
  "isDouble (Finite q) =
     (let n = nat \<lfloor>\<bar>q\<bar> * 2 ^ 1074\<rfloor>
      in of_nat n = \<bar>q\<bar> * 2 ^ 1074 \<and> roundSig n = n \<and> n < 2 ^ 2098)"
| "isDouble _ = True"

subsection \<open>State\<close>

record UIState =
  darkMode :: bool
  showBanner :: bool

record CounterState =
  value_counter :: JSNumber

record Todo =
  id_todo :: string
  title :: string
  done_todo :: bool
  createdAt :: int

record TodosState =
  items :: "Todo list"
  doneItems :: "Todo list"

record RootState =
  ui :: UIState
  counter :: CounterState
  todos :: TodosState

definition uiInitialState :: UIState where
  "uiInitialState = \<lparr>darkMode = False, showBanner = True\<rparr>"

definition counterInitialState :: CounterState where
  "counterInitialState = \<lparr>value_counter = Finite 0\<rparr>"

definition todosInitialState :: TodosState where
  "todosInitialState = \<lparr>items = [], doneItems = []\<rparr>"

subsection \<open>Actions\<close>

text \<open>
  One constructor per action creator of the three slices; the argument is the action's
  payload. \<open>sliceOf\<close> is the slice name that prefixes the action's type
  (\<open>ui/toggleDarkMode\<close>, \<open>counter/increment\<close>, \<open>todos/addTodo\<close>, ...).
\<close>

datatype Action =
    ToggleDarkMode
  | DismissBanner
  | Increment
  | Decrement
  | Reset
  | AddByAmount JSNumber
  | AddTodo Todo
  | ToggleTodo string
  | RemoveTodo string
  | ClearTodos

datatype Slice = UiSlice | CounterSlice | TodosSlice

fun sliceOf :: "Action \<Rightarrow> Slice" where
  "sliceOf ToggleDarkMode = UiSlice"
| "sliceOf DismissBanner = UiSlice"
| "sliceOf Increment = CounterSlice"
| "sliceOf Decrement = CounterSlice"
| "sliceOf Reset = CounterSlice"
| "sliceOf (AddByAmount n) = CounterSlice"
| "sliceOf (AddTodo p) = TodosSlice"
| "sliceOf (ToggleTodo i) = TodosSlice"
| "sliceOf (RemoveTodo i) = TodosSlice"
| "sliceOf ClearTodos = TodosSlice"

subsection \<open>The ui slice\<close>

definition toggleDarkMode :: "UIState \<Rightarrow> UIState" where
  "toggleDarkMode state = state\<lparr>darkMode := \<not> darkMode state\<rparr>"

definition dismissBanner :: "UIState \<Rightarrow> UIState" where
  "dismissBanner state = state\<lparr>showBanner := False\<rparr>"

fun uiReducer :: "UIState \<Rightarrow> Action \<Rightarrow> UIState" where
  "uiReducer state ToggleDarkMode = toggleDarkMode state"
| "uiReducer state DismissBanner = dismissBanner state"
| "uiReducer state _ = state"

subsection \<open>The counter slice\<close>

definition increment :: "CounterState \<Rightarrow> CounterState" where
  "increment state = state\<lparr>value_counter := jsAdd (value_counter state) (Finite 1)\<rparr>"

definition decrement :: "CounterState \<Rightarrow> CounterState" where
  "decrement state = state\<lparr>value_counter := jsSub (value_counter state) (Finite 1)\<rparr>"

definition reset :: "CounterState \<Rightarrow> CounterState" where
  "reset state = state\<lparr>value_counter := Finite 0\<rparr>"

definition addByAmount :: "CounterState \<Rightarrow> JSNumber \<Rightarrow> CounterState" where
  "addByAmount state payload = state\<lparr>value_counter := jsAdd (value_counter state) payload\<rparr>"

fun counterReducer :: "CounterState \<Rightarrow> Action \<Rightarrow> CounterState" where
  "counterReducer state Increment = increment state"
| "counterReducer state Decrement = decrement state"
| "counterReducer state Reset = reset state"
| "counterReducer state (AddByAmount n) = addByAmount state n"
| "counterReducer state _ = state"

subsection \<open>The todos slice\<close>

text \<open>
  \<open>prepare\<close> builds the payload of \<open>addTodo\<close>. Its first two arguments are what the
  calls \<open>nanoid()\<close> and \<open>Date.now()\<close> returned.
\<close>

definition prepare :: "string \<Rightarrow> int \<Rightarrow> string \<Rightarrow> Todo" where
  "prepare nid now ttl = \<lparr>id_todo = nid, title = ttl, done_todo = False, createdAt = now\<rparr>"

definition addTodo :: "TodosState \<Rightarrow> Todo \<Rightarrow> TodosState" where
  "addTodo state payload = state\<lparr>items := payload # items state\<rparr>"

text \<open>
  \<open>t.done = !t.done\<close> writes through the element that \<open>find\<close> returned, the first one
  of \<open>items\<close> with the id: \<open>writeFirst\<close> is that write, seen from the list.
\<close>

fun writeFirst :: "('a \<Rightarrow> bool) \<Rightarrow> 'a \<Rightarrow> 'a list \<Rightarrow> 'a list" where
  "writeFirst P y [] = []"
| "writeFirst P y (x # xs) = (if P x then y # xs else x # writeFirst P y xs)"

definition toggleTodo :: "TodosState \<Rightarrow> string \<Rightarrow> TodosState" where
  "toggleTodo state payload =
     (case List.find (\<lambda>x. id_todo x = payload) (items state) of
        None \<Rightarrow> state
      | Some t0 \<Rightarrow>
          (let t = t0\<lparr>done_todo := \<not> done_todo t0\<rparr>;
               written = writeFirst (\<lambda>x. id_todo x = payload) t (items state)
           in if done_todo t
              then state\<lparr>doneItems := doneItems state @ [t],
                         items := filter (\<lambda>item. id_todo item \<noteq> payload) written\<rparr>
              else state\<lparr>items := t # written,
                         doneItems := filter (\<lambda>item. id_todo item \<noteq> payload) (doneItems state)\<rparr>))"

definition removeTodo :: "TodosState \<Rightarrow> string \<Rightarrow> TodosState" where
  "removeTodo state payload =
     state\<lparr>items := filter (\<lambda>x. id_todo x \<noteq> payload) (items state),
           doneItems := filter (\<lambda>x. id_todo x \<noteq> payload) (doneItems state)\<rparr>"

definition clearTodos :: "TodosState \<Rightarrow> TodosState" where
  "clearTodos state = state\<lparr>items := [], doneItems := []\<rparr>"

fun todosReducer :: "TodosState \<Rightarrow> Action \<Rightarrow> TodosState" where
  "todosReducer state (AddTodo p) = addTodo state p"
| "todosReducer state (ToggleTodo i) = toggleTodo state i"
| "todosReducer state (RemoveTodo i) = removeTodo state i"
| "todosReducer state ClearTodos = clearTodos state"
| "todosReducer state _ = state"

subsection \<open>The store\<close>

text \<open>
  \<open>configureStore\<close> combines the three slice reducers: every action goes to every
  slice reducer, and a slice reducer returns its state as it is on an action of another
  slice.
\<close>

definition rootReducer :: "RootState \<Rightarrow> Action \<Rightarrow> RootState" where
  "rootReducer state a =
     \<lparr>ui = uiReducer (ui state) a,
      counter = counterReducer (counter state) a,
      todos = todosReducer (todos state) a\<rparr>"

definition storeInitialState :: RootState where
  "storeInitialState =
     \<lparr>ui = uiInitialState, counter = counterInitialState, todos = todosInitialState\<rparr>"

subsection \<open>Vocabulary of the properties\<close>

text \<open>The ids of a todos state, active list first.\<close>

definition todoIds :: "TodosState \<Rightarrow> string list" where
  "todoIds state = map id_todo (items state @ doneItems state)"

text \<open>The branch that \<open>toggleTodo\<close> takes: its guards, in the order of the code.\<close>

datatype ToggleBranch = NotFound | MoveToDone | MoveBack

definition toggleBranch :: "TodosState \<Rightarrow> string \<Rightarrow> ToggleBranch" where
  "toggleBranch state payload =
     (case List.find (\<lambda>x. id_todo x = payload) (items state) of
        None \<Rightarrow> NotFound
      | Some t0 \<Rightarrow> if done_todo (t0\<lparr>done_todo := \<not> done_todo t0\<rparr>) then MoveToDone else MoveBack)"



text \<open>
  The integers of magnitude at most \<open>2^53\<close>: each of them is a double, and up to there
  every integer is.
\<close>

definition exactInteger :: "rat \<Rightarrow> bool" where
  "exactInteger q = (of_int \<lfloor>q\<rfloor> = q \<and> \<bar>q\<bar> \<le> 2 ^ 53)"

fun doublePayload :: "Action \<Rightarrow> bool" where
  "doublePayload (AddByAmount p) = isDouble p"
| "doublePayload _ = True"




text \<open>
  Modelled from the spec: \<open>nanoid\<close> is a function of the library
  \<open>@reduxjs/toolkit\<close>, whose code is not part of this repository. The spec has
  \<open>addTodo\<close> create its todo with a fresh unique identifier, one that is non-empty.
  \<open>freshId state nid\<close> says that \<open>nid\<close>, the string that \<open>nanoid()\<close> returned, is
  such an identifier in \<open>state\<close>: not empty, and the id of no todo of either list.
\<close>

definition freshId :: "TodosState \<Rightarrow> string \<Rightarrow> bool" where
  "freshId state nid = (nid \<noteq> [] \<and> nid \<notin> set (todoIds state))"

text \<open>
  Dispatching \<open>addTodo(title)\<close>: the action creator calls \<open>prepare\<close>, which reads
  \<open>nanoid()\<close> and \<open>Date.now()\<close>, and the store runs the reducer on the action.
\<close>

definition dispatchAddTodo :: "string \<Rightarrow> int \<Rightarrow> string \<Rightarrow> TodosState \<Rightarrow> TodosState" where
  "dispatchAddTodo nid now ttl state = todosReducer state (AddTodo (prepare nid now ttl))"

text \<open>
  The actions that the action creators build: the payload of an \<open>AddTodo\<close> comes from
  \<open>prepare\<close>.
\<close>

fun created :: "Action \<Rightarrow> bool" where
  "created (AddTodo p) = (p = prepare (id_todo p) (createdAt p) (title p))"
| "created _ = True"

text \<open>
  A run of created actions in which each \<open>AddTodo\<close> carries an identifier that is fresh
  in the state it is dispatched in.
\<close>

fun freshlyAdded :: "TodosState \<Rightarrow> Action \<Rightarrow> bool" where
  "freshlyAdded state (AddTodo p) = freshId state (id_todo p)"
| "freshlyAdded state _ = True"

fun freshRun :: "TodosState \<Rightarrow> Action list \<Rightarrow> bool" where
  "freshRun state [] = True"
| "freshRun state (a # acts) =
     (created a \<and> freshlyAdded state a \<and> freshRun (todosReducer state a) acts)"

text \<open>The done flags agree with the lists: active todos are not done, done todos are.\<close>

definition flagsOk :: "TodosState \<Rightarrow> bool" where
  "flagsOk state =
     (list_all (\<lambda>t. \<not> done_todo t) (items state) \<and> list_all done_todo (doneItems state))"

text \<open>No identifier occurs twice in the two lists taken together.\<close>

definition idsOk :: "TodosState \<Rightarrow> bool" where
  "idsOk state = distinct (todoIds state)"

section \<open>Properties\<close>

subsection \<open>The ui slice\<close>

text \<open>
  C8: \<open>toggleDarkMode\<close> is an involution: applied twice it returns \<open>darkMode\<close> to its
  original value (the whole ui state, in fact); applied once it negates \<open>darkMode\<close> and
  leaves \<open>showBanner\<close> unchanged.
\<close>

theorem toggleDarkMode_involution:
  "toggleDarkMode (toggleDarkMode state) = state
   \<and> darkMode (toggleDarkMode (toggleDarkMode state)) = darkMode state
   \<and> darkMode (toggleDarkMode state) = (\<not> darkMode state)
   \<and> showBanner (toggleDarkMode state) = showBanner state"
  by (simp add: toggleDarkMode_def)

subsection \<open>The counter slice\<close>

text \<open>The bit length of a number between two powers of two.\<close>

lemma bitLength_le: "n < 2 ^ m \<Longrightarrow> bitLength n \<le> m"
proof (induction m arbitrary: n)
  case 0
  then show ?case by (simp add: bitLength.simps)
next
  case (Suc m)
  show ?case
  proof (cases "n = 0")
    case True
    then show ?thesis by (simp add: bitLength.simps)
  next
    case False
    from Suc.prems have "n div 2 < 2 ^ m" by simp
    then have "bitLength (n div 2) \<le> m" by (rule Suc.IH)
    with False show ?thesis by (simp add: bitLength.simps [of n])
  qed
qed

lemma bitLength_gt: "2 ^ m \<le> n \<Longrightarrow> m < bitLength n"
proof (induction m arbitrary: n)
  case 0
  then show ?case by (simp add: bitLength.simps [of n])
next
  case (Suc m)
  have "(0::nat) < 2 ^ Suc m" by simp
  with Suc.prems have "n \<noteq> 0" by linarith
  from Suc.prems have "2 ^ m \<le> n div 2" by simp
  then have "m < bitLength (n div 2)" by (rule Suc.IH)
  with \<open>n \<noteq> 0\<close> show ?case by (simp add: bitLength.simps [of n])
qed


lemma roundSig_exact:
  assumes "m \<le> 2 ^ 53"
  shows "roundSig (m * 2 ^ e) = m * 2 ^ e"
proof (cases "m * 2 ^ e < 2 ^ 53")
  case True
  then show ?thesis by (simp add: roundSig_def)
next
  case False
  let ?n = "m * 2 ^ e"
  let ?k = "bitLength ?n - 53"
  have le: "?n \<le> 2 ^ (53 + e)"
    using assms by (simp add: power_add mult_le_mono1)
  have dv: "2 ^ ?k dvd ?n"
  proof (cases "?n = 2 ^ (53 + e)")
    case True
    have "?n < 2 ^ (54 + e)" unfolding True by (simp add: power_strict_increasing)
    then have "bitLength ?n \<le> 54 + e" by (rule bitLength_le)
    then have "?k \<le> 53 + e" by simp
    then have "(2::nat) ^ ?k dvd 2 ^ (53 + e)" by (rule le_imp_power_dvd)
    then show ?thesis using True by simp
  next
    case False
    with le have "?n < 2 ^ (53 + e)" by simp
    then have "bitLength ?n \<le> 53 + e" by (rule bitLength_le)
    then have "?k \<le> e" by simp
    then have "(2::nat) ^ ?k dvd 2 ^ e" by (rule le_imp_power_dvd)
    then show ?thesis by (rule dvd_mult)
  qed
  then have "?n mod 2 ^ ?k = 0" by simp
  moreover from dv have "?n div 2 ^ ?k * 2 ^ ?k = ?n" by simp
  ultimately show ?thesis
    using False by (simp add: roundSig_def Let_def)
qed

lemma roundDouble_integer:
  assumes "\<bar>z\<bar> \<le> 2 ^ 53"
  shows "roundDouble (of_int z) = Finite (of_int z)"
proof -
  have fl: "nat \<lfloor>\<bar>of_int z :: rat\<bar> * 2 ^ 1074\<rfloor> = nat \<bar>z\<bar> * 2 ^ 1074"
  proof -
    have "\<bar>of_int z :: rat\<bar> * 2 ^ 1074 = of_int (\<bar>z\<bar> * 2 ^ 1074)" by simp
    then have "\<lfloor>\<bar>of_int z :: rat\<bar> * 2 ^ 1074\<rfloor> = \<bar>z\<bar> * 2 ^ 1074"
      by (simp only: floor_of_int)
    then show ?thesis by (simp add: nat_mult_distrib)
  qed
  have m: "nat \<bar>z\<bar> \<le> 2 ^ 53" using assms by (simp add: nat_le_iff)
  have rs: "roundSig (nat \<bar>z\<bar> * 2 ^ 1074) = nat \<bar>z\<bar> * 2 ^ 1074"
    using m by (rule roundSig_exact)
  have small: "\<not> (2::nat) ^ 2098 \<le> nat \<bar>z\<bar> * 2 ^ 1074"
  proof -
    have "nat \<bar>z\<bar> * 2 ^ 1074 \<le> 2 ^ 53 * 2 ^ 1074" using m by (rule mult_le_mono1)
    also have "\<dots> = (2::nat) ^ 1127" by (simp only: power_add [symmetric]) simp
    also have "\<dots> < (2::nat) ^ 2098" by (rule power_strict_increasing) simp_all
    finally show ?thesis by simp
  qed
  have val: "sgn (of_int z :: rat) * of_nat (nat \<bar>z\<bar> * 2 ^ 1074) / 2 ^ 1074 = of_int z"
  proof -
    have "of_nat (nat \<bar>z\<bar> * 2 ^ 1074) / (2 ^ 1074 :: rat) = of_int \<bar>z\<bar>" by simp
    then have "sgn (of_int z :: rat) * of_nat (nat \<bar>z\<bar> * 2 ^ 1074) / 2 ^ 1074
                 = sgn (of_int z :: rat) * of_int \<bar>z\<bar>"
      by (simp only: times_divide_eq_right [symmetric])
    also have "\<dots> = of_int z" by (simp add: sgn_if abs_if)
    finally show ?thesis .
  qed
  show ?thesis
    unfolding roundDouble_def Let_def fl rs using small val by simp
qed

text \<open>
  The sum of two doubles is a double, so the counter, which starts at \<open>0\<close>, holds a
  double after every action whose payload is one.
\<close>

lemma bitLength_bound: "n < 2 ^ bitLength n"
proof (induction n rule: bitLength.induct)
  case (1 n)
  show ?case
  proof (cases "n = 0")
    case True
    then show ?thesis by simp
  next
    case False
    with 1 have "n div 2 < 2 ^ bitLength (n div 2)" by simp
    then have "n < 2 * 2 ^ bitLength (n div 2)" by linarith
    with False show ?thesis by (simp add: bitLength.simps [of n])
  qed
qed

lemma roundSig_shape: "\<exists>m k. roundSig n = m * 2 ^ k \<and> m \<le> 2 ^ 53"
proof (cases "n < 2 ^ 53")
  case True
  then have "roundSig n = n * 2 ^ 0 \<and> n \<le> 2 ^ 53" by (simp add: roundSig_def)
  then show ?thesis by blast
next
  case False
  let ?k = "bitLength n - 53"
  have "(2::nat) ^ 53 \<le> n" using False by simp
  then have "53 < bitLength n" by (rule bitLength_gt)
  then have "bitLength n = 53 + ?k" by simp
  then have "n < 2 ^ (53 + ?k)" using bitLength_bound [of n] by simp
  then have "n < 2 ^ 53 * 2 ^ ?k" by (simp only: power_add)
  then have "n div 2 ^ ?k < 2 ^ 53" by (simp add: less_mult_imp_div_less)
  then have "n div 2 ^ ?k \<le> 2 ^ 53" "n div 2 ^ ?k + 1 \<le> 2 ^ 53" by simp_all
  then have "roundSig n = (if 2 ^ ?k < 2 * (n mod 2 ^ ?k) \<or> (2 * (n mod 2 ^ ?k) = 2 ^ ?k \<and> odd (n div 2 ^ ?k))
                then n div 2 ^ ?k + 1 else n div 2 ^ ?k) * 2 ^ ?k
      \<and> (if 2 ^ ?k < 2 * (n mod 2 ^ ?k) \<or> (2 * (n mod 2 ^ ?k) = 2 ^ ?k \<and> odd (n div 2 ^ ?k))
                then n div 2 ^ ?k + 1 else n div 2 ^ ?k) \<le> 2 ^ 53"
    using False by (simp add: roundSig_def Let_def)
  then show ?thesis by blast
qed

lemma roundSig_idem: "roundSig (roundSig n) = roundSig n"
proof -
  obtain m k where "roundSig n = m * 2 ^ k" "m \<le> 2 ^ 53" using roundSig_shape by blast
  then show ?thesis by (simp add: roundSig_exact)
qed

lemma roundDouble_isDouble: "isDouble (roundDouble x)"
proof (cases "2 ^ 2098 \<le> roundSig (nat \<lfloor>\<bar>x\<bar> * 2 ^ 1074\<rfloor>)")
  case True
  then show ?thesis by (simp add: roundDouble_def Let_def)
next
  case False
  let ?n = "roundSig (nat \<lfloor>\<bar>x\<bar> * 2 ^ 1074\<rfloor>)"
  have r: "roundDouble x = Finite (sgn x * of_nat ?n / 2 ^ 1074)"
    using False by (simp add: roundDouble_def Let_def)
  show ?thesis
  proof (cases "x = 0")
    case True
    have "roundSig 0 = 0" by (simp add: roundSig_def)
    with True show ?thesis by (simp add: roundDouble_def Let_def)
  next
    case nz: False
    then have "\<bar>sgn x\<bar> = 1" by (simp add: sgn_if)
    then have "\<bar>sgn x * of_nat ?n / 2 ^ 1074\<bar> * 2 ^ 1074 = (of_nat ?n :: rat)"
      by (simp add: abs_mult)
    then have a: "\<bar>sgn x * of_nat ?n / 2 ^ 1074\<bar> * 2 ^ 1074 = (of_int (int ?n) :: rat)"
      by simp
    have fl: "nat \<lfloor>\<bar>sgn x * of_nat ?n / 2 ^ 1074\<bar> * 2 ^ 1074\<rfloor> = ?n"
      by (simp only: a floor_of_int nat_int)
    show ?thesis
      unfolding r isDouble.simps Let_def fl using False a by (simp add: roundSig_idem)
  qed
qed

lemma jsAdd_isDouble: "isDouble x \<Longrightarrow> isDouble y \<Longrightarrow> isDouble (jsAdd x y)"
  by (cases x; cases y) (simp_all add: roundDouble_isDouble del: isDouble.simps(1))

lemma jsNeg_isDouble: "isDouble x \<Longrightarrow> isDouble (jsNeg x)"
  by (cases x) (simp_all add: roundSig_def)

text \<open>Adding two integers whose sum is at most \<open>2^53\<close> in magnitude is exact.\<close>

lemma roundDouble_exact: "exactInteger q \<Longrightarrow> roundDouble q = Finite q"
proof -
  assume e: "exactInteger q"
  then have q: "of_int \<lfloor>q\<rfloor> = q" and b: "\<bar>q\<bar> \<le> 2 ^ 53"
    unfolding exactInteger_def by blast+
  from b have "\<bar>of_int \<lfloor>q\<rfloor> :: rat\<bar> \<le> 2 ^ 53" by (simp only: q)
  then have "(of_int \<bar>\<lfloor>q\<rfloor>\<bar> :: rat) \<le> of_int (2 ^ 53)" by simp
  then have "\<bar>\<lfloor>q\<rfloor>\<bar> \<le> 2 ^ 53" by (simp only: of_int_le_iff)
  then have "roundDouble (of_int \<lfloor>q\<rfloor>) = Finite (of_int \<lfloor>q\<rfloor>)" by (rule roundDouble_integer)
  then show ?thesis by (simp only: q)
qed

lemma isDouble_integer: "exactInteger q \<Longrightarrow> isDouble (Finite q)"
  using roundDouble_isDouble [of q] by (simp add: roundDouble_exact del: isDouble.simps(1))


lemma counterReducer_isDouble:
  assumes "isDouble (value_counter state)" and "doublePayload a"
  shows "isDouble (value_counter (counterReducer state a))"
proof -
  have one: "isDouble (Finite 1)" "isDouble (Finite 0)"
    by (rule isDouble_integer, simp add: exactInteger_def)+
  show ?thesis
  proof (cases a)
    case Increment
    with assms one show ?thesis by (simp add: increment_def jsAdd_isDouble del: isDouble.simps(1))
  next
    case Decrement
    with assms one show ?thesis
      by (simp add: decrement_def jsSub_def jsAdd_isDouble jsNeg_isDouble del: isDouble.simps(1) jsNeg.simps(5))
  next
    case Reset
    with one show ?thesis by (simp add: reset_def del: isDouble.simps(1))
  next
    case (AddByAmount p)
    with assms show ?thesis by (simp add: addByAmount_def jsAdd_isDouble del: isDouble.simps(1))
  qed (use assms in simp_all)
qed








subsection \<open>The store\<close>

text \<open>
  C9: the three slices are independent: an action of the ui slice leaves the counter and
  the todos unchanged, an action of the counter slice leaves the ui and the todos
  unchanged, and an action of the todos slice leaves the ui and the counter unchanged.
\<close>

theorem slices_independent:
  "(sliceOf a = UiSlice \<longrightarrow>
      counter (rootReducer state a) = counter state \<and> todos (rootReducer state a) = todos state)
   \<and> (sliceOf a = CounterSlice \<longrightarrow>
      ui (rootReducer state a) = ui state \<and> todos (rootReducer state a) = todos state)
   \<and> (sliceOf a = TodosSlice \<longrightarrow>
      ui (rootReducer state a) = ui state \<and> counter (rootReducer state a) = counter state)"
  by (cases a) (simp_all add: rootReducer_def)

theorem slices_independent_witness:
  "sliceOf ToggleDarkMode = UiSlice
   \<and> counter (rootReducer storeInitialState ToggleDarkMode) = counter storeInitialState
   \<and> todos (rootReducer storeInitialState ToggleDarkMode) = todos storeInitialState
   \<and> sliceOf (AddByAmount (Finite 4)) = CounterSlice
   \<and> ui (rootReducer storeInitialState (AddByAmount (Finite 4))) = ui storeInitialState
   \<and> todos (rootReducer storeInitialState (AddByAmount (Finite 4))) = todos storeInitialState
   \<and> sliceOf (AddTodo (prepare ''a1'' 1000 ''Buy milk'')) = TodosSlice
   \<and> ui (rootReducer storeInitialState (AddTodo (prepare ''a1'' 1000 ''Buy milk'')))
       = ui storeInitialState
   \<and> counter (rootReducer storeInitialState (AddTodo (prepare ''a1'' 1000 ''Buy milk'')))
       = counter storeInitialState"
  using slices_independent [of ToggleDarkMode storeInitialState]
        slices_independent [of "AddByAmount (Finite 4)" storeInitialState]
        slices_independent [of "AddTodo (prepare ''a1'' 1000 ''Buy milk'')" storeInitialState]
  by simp

subsection \<open>The todos slice\<close>

text \<open>
  C7: \<open>clearTodos\<close> yields \<open>items = []\<close> and \<open>doneItems = []\<close>, whatever the two lists
  held.
\<close>

theorem clearTodos_empties:
  "items (clearTodos state) = [] \<and> doneItems (clearTodos state) = []
   \<and> clearTodos state = todosInitialState"
  by (simp add: clearTodos_def todosInitialState_def)

text \<open>
  What \<open>find\<close> returns, on a list of todos searched by id.
\<close>

lemma find_id_Some:
  "List.find (\<lambda>x. id_todo x = i) xs = Some t \<Longrightarrow> id_todo t = i \<and> t \<in> set xs"
  by (induction xs) (auto split: if_splits)

lemma find_id_None:
  "(List.find (\<lambda>x. id_todo x = i) xs = None) = (i \<notin> set (map id_todo xs))"
  by (induction xs) auto

lemma filter_writeFirst:
  "P y \<Longrightarrow> filter (\<lambda>x. \<not> P x) (writeFirst P y xs) = filter (\<lambda>x. \<not> P x) xs"
  by (induction xs) auto

text \<open>
  \<open>toggleTodo\<close> searches \<open>items\<close> alone: an id that no active todo has is not found,
  whether a done todo has it or not.
\<close>

lemma toggleTodo_absent:
  "i \<notin> set (map id_todo (items state)) \<Longrightarrow> toggleTodo state i = state"
  using find_id_None [of i "items state"] by (simp add: toggleTodo_def)

lemma toggleTodo_done_only:
  "i \<in> set (map id_todo (doneItems state)) \<Longrightarrow> i \<notin> set (map id_todo (items state))
     \<Longrightarrow> toggleTodo state i = state"
  by (rule toggleTodo_absent)

text \<open>
  The branch of a todo that is found with \<open>done = false\<close>: the write to the element is
  filtered out of \<open>items\<close> with the element.
\<close>

lemma toggleTodo_active:
  assumes "List.find (\<lambda>x. id_todo x = i) (items state) = Some t0" and "\<not> done_todo t0"
  shows "toggleTodo state i =
           state\<lparr>doneItems := doneItems state @ [t0\<lparr>done_todo := True\<rparr>],
                 items := filter (\<lambda>x. id_todo x \<noteq> i) (items state)\<rparr>"
proof -
  have "id_todo (t0\<lparr>done_todo := True\<rparr>) = i"
    using find_id_Some [OF assms(1)] by simp
  then have "filter (\<lambda>x. id_todo x \<noteq> i)
               (writeFirst (\<lambda>x. id_todo x = i) (t0\<lparr>done_todo := True\<rparr>) (items state))
             = filter (\<lambda>x. id_todo x \<noteq> i) (items state)"
    using filter_writeFirst [of "\<lambda>x. id_todo x = i" "t0\<lparr>done_todo := True\<rparr>" "items state"]
    by simp
  with assms show ?thesis by (simp add: toggleTodo_def Let_def)
qed

lemma removeTodo_absent:
  "i \<notin> set (todoIds state) \<Longrightarrow> removeTodo state i = state"
proof -
  assume a: "i \<notin> set (todoIds state)"
  have "filter (\<lambda>x. id_todo x \<noteq> i) (items state) = items state"
    using a by (auto simp: todoIds_def filter_id_conv)
  moreover have "filter (\<lambda>x. id_todo x \<noteq> i) (doneItems state) = doneItems state"
    using a by (auto simp: todoIds_def filter_id_conv)
  ultimately show ?thesis by (simp add: removeTodo_def)
qed

text \<open>
  The branch of a todo that is found with \<open>done = true\<close>: \<open>unshift\<close> adds the todo to
  \<open>items\<close>, which still holds it, so its id is there twice.
\<close>

lemma toggleTodo_MoveBack_duplicates:
  assumes "toggleBranch state i = MoveBack"
  shows "\<not> distinct (map id_todo (items (toggleTodo state i)))"
proof (cases "List.find (\<lambda>x. id_todo x = i) (items state)")
  case None
  with assms show ?thesis by (simp add: toggleBranch_def)
next
  case (Some t0)
  with assms have d: "done_todo t0" by (simp add: toggleBranch_def split: if_splits)
  have mem: "y \<in> set (writeFirst P y xs)" if "List.find P xs = Some x" for P and y x :: Todo and xs
    using that by (induction xs) (auto split: if_splits)
  have "t0\<lparr>done_todo := False\<rparr>
          \<in> set (writeFirst (\<lambda>x. id_todo x = i) (t0\<lparr>done_todo := False\<rparr>) (items state))"
    using mem [OF Some] .
  then have "id_todo (t0\<lparr>done_todo := False\<rparr>)
          \<in> id_todo ` set (writeFirst (\<lambda>x. id_todo x = i) (t0\<lparr>done_todo := False\<rparr>) (items state))"
    by (rule imageI)
  with Some d show ?thesis by (simp add: toggleTodo_def Let_def)
qed

text \<open>
  Every transition keeps the done flags in agreement with the lists, and from such a state
  \<open>toggleTodo\<close> never takes the branch \<open>MoveBack\<close>.
\<close>

lemma toggleTodo_flagsOk: "flagsOk state \<Longrightarrow> flagsOk (toggleTodo state i)"
proof (cases "List.find (\<lambda>x. id_todo x = i) (items state)")
  case None
  assume "flagsOk state"
  with None show ?thesis by (simp add: toggleTodo_def)
next
  case (Some t0)
  assume ok: "flagsOk state"
  have "t0 \<in> set (items state)" using find_id_Some [OF Some] by simp
  with ok have nd: "\<not> done_todo t0" by (simp add: flagsOk_def list_all_iff)
  show ?thesis
    using ok by (simp add: toggleTodo_active [OF Some nd] flagsOk_def list_all_iff)
qed

lemma todosReducer_flagsOk:
  "created a \<Longrightarrow> flagsOk state \<Longrightarrow> flagsOk (todosReducer state a)"
proof (cases a)
  case (AddTodo p)
  assume "created a" "flagsOk state"
  moreover from \<open>created a\<close> AddTodo have "\<not> done_todo p"
    by (metis created.simps(1) prepare_def Todo.select_convs(3))
  ultimately show ?thesis using AddTodo by (simp add: addTodo_def flagsOk_def)
next
  case (ToggleTodo i)
  assume "flagsOk state"
  then show ?thesis using ToggleTodo by (simp add: toggleTodo_flagsOk)
next
  case (RemoveTodo i)
  assume "flagsOk state"
  then show ?thesis using RemoveTodo by (simp add: removeTodo_def flagsOk_def list_all_iff)
next
  case ClearTodos
  then show ?thesis by (simp add: clearTodos_def flagsOk_def)
qed simp_all

lemma run_flagsOk:
  "list_all created acts \<Longrightarrow> flagsOk state \<Longrightarrow> flagsOk (foldl todosReducer state acts)"
  by (induction acts arbitrary: state) (simp_all add: todosReducer_flagsOk)

lemma flagsOk_no_MoveBack: "flagsOk state \<Longrightarrow> toggleBranch state i \<noteq> MoveBack"
proof (cases "List.find (\<lambda>x. id_todo x = i) (items state)")
  case None
  then show ?thesis by (simp add: toggleBranch_def)
next
  case (Some t0)
  assume ok: "flagsOk state"
  have "t0 \<in> set (items state)" using find_id_Some [OF Some] by simp
  with ok have "\<not> done_todo t0" by (simp add: flagsOk_def list_all_iff)
  with Some show ?thesis by (simp add: toggleBranch_def)
qed

text \<open>
  With the flags in agreement, every transition that adds only fresh identifiers keeps
  the identifiers distinct.
\<close>

lemma toggleTodo_idsOk:
  assumes "flagsOk state" and "idsOk state"
  shows "idsOk (toggleTodo state i)"
proof (cases "List.find (\<lambda>x. id_todo x = i) (items state)")
  case None
  with assms show ?thesis by (simp add: toggleTodo_def)
next
  case (Some t0)
  have t0: "id_todo t0 = i" "t0 \<in> set (items state)"
    using find_id_Some [OF Some] by simp_all
  with assms(1) have nd: "\<not> done_todo t0" by (simp add: flagsOk_def list_all_iff)
  have "i \<in> set (map id_todo (items state))" using t0 by force
  with assms(2) have "i \<notin> set (map id_todo (doneItems state))"
    by (auto simp: idsOk_def todoIds_def)
  with assms(2) t0 show ?thesis
    by (auto simp: toggleTodo_active [OF Some nd] idsOk_def todoIds_def distinct_map_filter)
qed

lemma removeTodo_idsOk: "idsOk state \<Longrightarrow> idsOk (removeTodo state i)"
  by (auto simp: removeTodo_def idsOk_def todoIds_def distinct_map_filter)

lemma todosReducer_idsOk:
  assumes "freshlyAdded state a" and "flagsOk state" and "idsOk state"
  shows "idsOk (todosReducer state a)"
proof (cases a)
  case (AddTodo p)
  with assms show ?thesis by (simp add: addTodo_def idsOk_def todoIds_def freshId_def)
next
  case (ToggleTodo i)
  with assms show ?thesis by (simp add: toggleTodo_idsOk)
next
  case (RemoveTodo i)
  with assms show ?thesis by (simp add: removeTodo_idsOk)
next
  case ClearTodos
  then show ?thesis by (simp add: clearTodos_def idsOk_def todoIds_def)
qed (use assms in simp_all)

lemma freshRun_idsOk:
  "freshRun state acts \<Longrightarrow> flagsOk state \<Longrightarrow> idsOk state
     \<Longrightarrow> idsOk (foldl todosReducer state acts)"
  by (induction acts arbitrary: state) (simp_all add: todosReducer_idsOk todosReducer_flagsOk)

lemma freshRun_created: "freshRun state acts \<Longrightarrow> list_all created acts"
  by (induction acts arbitrary: state) auto

text \<open>
  C1: the claim is that, for an id present in \<open>doneItems\<close>, \<open>toggleTodo\<close> moves that
  todo to the front of \<open>items\<close> and removes it from \<open>doneItems\<close>. The code does not:
  \<open>toggleTodo\<close> looks the id up in \<open>items\<close> only. After \<open>addTodo("Buy milk")\<close> (with
  id \<open>a1\<close>) and \<open>toggleTodo("a1")\<close> the todo is in \<open>doneItems\<close>, and a second
  \<open>toggleTodo("a1")\<close> leaves the state as it is.
\<close>

theorem toggleTodo_on_done_item_does_nothing:
  "foldl todosReducer todosInitialState
     [AddTodo (prepare ''a1'' 1000 ''Buy milk''), ToggleTodo ''a1'']
     = \<lparr>items = [],
        doneItems = [\<lparr>id_todo = ''a1'', title = ''Buy milk'', done_todo = True, createdAt = 1000\<rparr>]\<rparr>
   \<and> toggleTodo
       \<lparr>items = [],
        doneItems = [\<lparr>id_todo = ''a1'', title = ''Buy milk'', done_todo = True, createdAt = 1000\<rparr>]\<rparr>
       ''a1''
     = \<lparr>items = [],
        doneItems = [\<lparr>id_todo = ''a1'', title = ''Buy milk'', done_todo = True, createdAt = 1000\<rparr>]\<rparr>"
  by (simp add: todosInitialState_def prepare_def addTodo_def toggleTodo_def Let_def)

text \<open>
  C2: in every state reached from the initial state by a sequence of \<open>addTodo\<close>,
  \<open>toggleTodo\<close>, \<open>removeTodo\<close> and \<open>clearTodos\<close>, where each \<open>addTodo\<close> gets a fresh
  identifier from \<open>nanoid\<close>, no id is duplicated within \<open>items\<close>, none within
  \<open>doneItems\<close>, and no id is in both lists.
\<close>

theorem ids_unique_in_reachable_states:
  assumes "freshRun todosInitialState acts"
  shows "distinct (map id_todo (items (foldl todosReducer todosInitialState acts)))
         \<and> distinct (map id_todo (doneItems (foldl todosReducer todosInitialState acts)))
         \<and> set (map id_todo (items (foldl todosReducer todosInitialState acts)))
             \<inter> set (map id_todo (doneItems (foldl todosReducer todosInitialState acts))) = {}"
proof -
  have "flagsOk todosInitialState" "idsOk todosInitialState"
    by (simp_all add: flagsOk_def idsOk_def todoIds_def todosInitialState_def)
  with assms have "idsOk (foldl todosReducer todosInitialState acts)"
    by (simp add: freshRun_idsOk)
  then show ?thesis by (simp add: idsOk_def todoIds_def)
qed

theorem ids_unique_in_reachable_states_witness:
  "freshRun todosInitialState
     [AddTodo (prepare ''a1'' 1000 ''Buy milk''), AddTodo (prepare ''b2'' 2000 ''Walk dog''),
      ToggleTodo ''a1'', RemoveTodo ''b2'', AddTodo (prepare ''b2'' 3000 ''Call home'')]
   \<and> map id_todo (items (foldl todosReducer todosInitialState
       [AddTodo (prepare ''a1'' 1000 ''Buy milk''), AddTodo (prepare ''b2'' 2000 ''Walk dog''),
        ToggleTodo ''a1'', RemoveTodo ''b2'', AddTodo (prepare ''b2'' 3000 ''Call home'')])) = [''b2'']
   \<and> map id_todo (doneItems (foldl todosReducer todosInitialState
       [AddTodo (prepare ''a1'' 1000 ''Buy milk''), AddTodo (prepare ''b2'' 2000 ''Walk dog''),
        ToggleTodo ''a1'', RemoveTodo ''b2'', AddTodo (prepare ''b2'' 3000 ''Call home'')])) = [''a1'']
   \<and> distinct (map id_todo (items (foldl todosReducer todosInitialState
       [AddTodo (prepare ''a1'' 1000 ''Buy milk''), AddTodo (prepare ''b2'' 2000 ''Walk dog''),
        ToggleTodo ''a1'', RemoveTodo ''b2'', AddTodo (prepare ''b2'' 3000 ''Call home'')])))"
proof -
  have run: "freshRun todosInitialState
     [AddTodo (prepare ''a1'' 1000 ''Buy milk''), AddTodo (prepare ''b2'' 2000 ''Walk dog''),
      ToggleTodo ''a1'', RemoveTodo ''b2'', AddTodo (prepare ''b2'' 3000 ''Call home'')]"
    by (simp add: todosInitialState_def prepare_def addTodo_def toggleTodo_def removeTodo_def
          freshId_def todoIds_def)
  show ?thesis
    using run ids_unique_in_reachable_states [OF run]
    by (simp add: todosInitialState_def prepare_def addTodo_def toggleTodo_def removeTodo_def)
qed

text \<open>
  C3: in every state reached from the initial state by actions of the four action
  creators, and for every id present in \<open>items\<close>, \<open>toggleTodo\<close> with that id sets the
  done flag of that todo (the one \<open>find\<close> returns) to true, appends it to the end of
  \<open>doneItems\<close>, and removes it from \<open>items\<close>.
\<close>

theorem toggleTodo_moves_active_to_done:
  assumes "state = foldl todosReducer todosInitialState acts"
    and "list_all created acts"
    and "i \<in> set (map id_todo (items state))"
  shows "\<exists>t0. List.find (\<lambda>x. id_todo x = i) (items state) = Some t0
           \<and> t0 \<in> set (items state) \<and> id_todo t0 = i
           \<and> doneItems (toggleTodo state i) = doneItems state @ [t0\<lparr>done_todo := True\<rparr>]
           \<and> done_todo (last (doneItems (toggleTodo state i)))
           \<and> items (toggleTodo state i) = filter (\<lambda>x. id_todo x \<noteq> i) (items state)
           \<and> i \<notin> set (map id_todo (items (toggleTodo state i)))"
proof -
  have "flagsOk todosInitialState"
    by (simp add: flagsOk_def todosInitialState_def)
  with assms(1,2) have ok: "flagsOk state" by (simp add: run_flagsOk)
  from assms(3) obtain t0 where f: "List.find (\<lambda>x. id_todo x = i) (items state) = Some t0"
    using find_id_None [of i "items state"] by (cases "List.find (\<lambda>x. id_todo x = i) (items state)") auto
  have t0: "id_todo t0 = i" "t0 \<in> set (items state)"
    using find_id_Some [OF f] by simp_all
  with ok have nd: "\<not> done_todo t0" by (simp add: flagsOk_def list_all_iff)
  have "doneItems (toggleTodo state i) = doneItems state @ [t0\<lparr>done_todo := True\<rparr>]"
    and "items (toggleTodo state i) = filter (\<lambda>x. id_todo x \<noteq> i) (items state)"
    by (simp_all add: toggleTodo_active [OF f nd])
  with f t0 show ?thesis by auto
qed

theorem toggleTodo_moves_active_to_done_witness:
  "list_all created
     [AddTodo (prepare ''c3'' 500 ''Call home''), AddTodo (prepare ''a1'' 1000 ''Buy milk''),
      AddTodo (prepare ''b2'' 2000 ''Walk dog''), ToggleTodo ''c3'']
   \<and> foldl todosReducer todosInitialState
       [AddTodo (prepare ''c3'' 500 ''Call home''), AddTodo (prepare ''a1'' 1000 ''Buy milk''),
        AddTodo (prepare ''b2'' 2000 ''Walk dog''), ToggleTodo ''c3'']
     = \<lparr>items = [\<lparr>id_todo = ''b2'', title = ''Walk dog'', done_todo = False, createdAt = 2000\<rparr>,
                 \<lparr>id_todo = ''a1'', title = ''Buy milk'', done_todo = False, createdAt = 1000\<rparr>],
        doneItems = [\<lparr>id_todo = ''c3'', title = ''Call home'', done_todo = True, createdAt = 500\<rparr>]\<rparr>
   \<and> ''a1'' \<in> set (map id_todo (items (foldl todosReducer todosInitialState
       [AddTodo (prepare ''c3'' 500 ''Call home''), AddTodo (prepare ''a1'' 1000 ''Buy milk''),
        AddTodo (prepare ''b2'' 2000 ''Walk dog''), ToggleTodo ''c3''])))
   \<and> toggleTodo (foldl todosReducer todosInitialState
       [AddTodo (prepare ''c3'' 500 ''Call home''), AddTodo (prepare ''a1'' 1000 ''Buy milk''),
        AddTodo (prepare ''b2'' 2000 ''Walk dog''), ToggleTodo ''c3'']) ''a1''
     = \<lparr>items = [\<lparr>id_todo = ''b2'', title = ''Walk dog'', done_todo = False, createdAt = 2000\<rparr>],
        doneItems = [\<lparr>id_todo = ''c3'', title = ''Call home'', done_todo = True, createdAt = 500\<rparr>,
                     \<lparr>id_todo = ''a1'', title = ''Buy milk'', done_todo = True, createdAt = 1000\<rparr>]\<rparr>"
proof -
  let ?acts = "[AddTodo (prepare ''c3'' 500 ''Call home''), AddTodo (prepare ''a1'' 1000 ''Buy milk''),
      AddTodo (prepare ''b2'' 2000 ''Walk dog''), ToggleTodo ''c3'']"
  have run: "list_all created ?acts" by (simp add: prepare_def)
  have st: "foldl todosReducer todosInitialState ?acts
     = \<lparr>items = [\<lparr>id_todo = ''b2'', title = ''Walk dog'', done_todo = False, createdAt = 2000\<rparr>,
                 \<lparr>id_todo = ''a1'', title = ''Buy milk'', done_todo = False, createdAt = 1000\<rparr>],
        doneItems = [\<lparr>id_todo = ''c3'', title = ''Call home'', done_todo = True, createdAt = 500\<rparr>]\<rparr>"
    by (simp add: todosInitialState_def prepare_def addTodo_def toggleTodo_def Let_def)
  have pres: "''a1'' \<in> set (map id_todo (items (foldl todosReducer todosInitialState ?acts)))"
    unfolding st by simp
  from toggleTodo_moves_active_to_done [OF refl run pres]
  have "doneItems (toggleTodo (foldl todosReducer todosInitialState ?acts) ''a1'')
          = doneItems (foldl todosReducer todosInitialState ?acts)
            @ [\<lparr>id_todo = ''a1'', title = ''Buy milk'', done_todo = True, createdAt = 1000\<rparr>]
         \<and> items (toggleTodo (foldl todosReducer todosInitialState ?acts) ''a1'')
          = filter (\<lambda>x. id_todo x \<noteq> ''a1'') (items (foldl todosReducer todosInitialState ?acts))"
    unfolding st by auto
  then have tg: "toggleTodo (foldl todosReducer todosInitialState ?acts) ''a1''
     = \<lparr>items = [\<lparr>id_todo = ''b2'', title = ''Walk dog'', done_todo = False, createdAt = 2000\<rparr>],
        doneItems = [\<lparr>id_todo = ''c3'', title = ''Call home'', done_todo = True, createdAt = 500\<rparr>,
                     \<lparr>id_todo = ''a1'', title = ''Buy milk'', done_todo = True, createdAt = 1000\<rparr>]\<rparr>"
    unfolding st by (cases "toggleTodo \<lparr>items = [\<lparr>id_todo = ''b2'', title = ''Walk dog'', done_todo = False, createdAt = 2000\<rparr>,
                 \<lparr>id_todo = ''a1'', title = ''Buy milk'', done_todo = False, createdAt = 1000\<rparr>],
        doneItems = [\<lparr>id_todo = ''c3'', title = ''Call home'', done_todo = True, createdAt = 500\<rparr>]\<rparr> ''a1''") simp
  from run st pres tg show ?thesis by (intro conjI)
qed

text \<open>
  C5: for every state and title, dispatching \<open>addTodo(title)\<close> puts one new todo at the
  front of \<open>items\<close>, with that title, \<open>done = false\<close>, \<open>createdAt\<close> the value of
  \<open>Date.now()\<close> and the id that \<open>nanoid()\<close> returned, which is non-empty and in neither
  list when it is fresh; the rest of \<open>items\<close> and all of \<open>doneItems\<close> are unchanged.
\<close>

theorem addTodo_inserts_at_front:
  assumes "freshId state nid"
  shows "items (dispatchAddTodo nid now ttl state)
           = \<lparr>id_todo = nid, title = ttl, done_todo = False, createdAt = now\<rparr> # items state
         \<and> doneItems (dispatchAddTodo nid now ttl state) = doneItems state
         \<and> nid \<noteq> []
         \<and> nid \<notin> set (map id_todo (items state))
         \<and> nid \<notin> set (map id_todo (doneItems state))"
  using assms by (simp add: dispatchAddTodo_def addTodo_def prepare_def freshId_def todoIds_def)

theorem addTodo_inserts_at_front_witness:
  "freshId
     \<lparr>items = [\<lparr>id_todo = ''b2'', title = ''Walk dog'', done_todo = False, createdAt = 2000\<rparr>],
      doneItems = [\<lparr>id_todo = ''c3'', title = ''Call home'', done_todo = True, createdAt = 500\<rparr>]\<rparr>
     ''a1''
   \<and> dispatchAddTodo ''a1'' 3000 ''Buy milk''
     \<lparr>items = [\<lparr>id_todo = ''b2'', title = ''Walk dog'', done_todo = False, createdAt = 2000\<rparr>],
      doneItems = [\<lparr>id_todo = ''c3'', title = ''Call home'', done_todo = True, createdAt = 500\<rparr>]\<rparr>
     = \<lparr>items = [\<lparr>id_todo = ''a1'', title = ''Buy milk'', done_todo = False, createdAt = 3000\<rparr>,
                 \<lparr>id_todo = ''b2'', title = ''Walk dog'', done_todo = False, createdAt = 2000\<rparr>],
        doneItems = [\<lparr>id_todo = ''c3'', title = ''Call home'', done_todo = True, createdAt = 500\<rparr>]\<rparr>"
proof -
  let ?s = "\<lparr>items = [\<lparr>id_todo = ''b2'', title = ''Walk dog'', done_todo = False, createdAt = 2000\<rparr>],
      doneItems = [\<lparr>id_todo = ''c3'', title = ''Call home'', done_todo = True, createdAt = 500\<rparr>]\<rparr>"
  have f: "freshId ?s ''a1''" by (simp add: freshId_def todoIds_def)
  show ?thesis
    using f addTodo_inserts_at_front [OF f, of 3000 "''Buy milk''"]
    by (simp add: dispatchAddTodo_def addTodo_def)
qed

text \<open>
  C6: for an id that is neither in \<open>items\<close> nor in \<open>doneItems\<close>, \<open>toggleTodo\<close> and
  \<open>removeTodo\<close> return the state unchanged. Neither reducer has a failing path: both
  are total functions of the state and the id.
\<close>

theorem absent_id_is_noop:
  assumes "i \<notin> set (map id_todo (items state))" and "i \<notin> set (map id_todo (doneItems state))"
  shows "toggleTodo state i = state \<and> removeTodo state i = state"
proof -
  from assms have "i \<notin> set (todoIds state)" by (simp add: todoIds_def)
  then have "removeTodo state i = state" by (rule removeTodo_absent)
  with assms(1) show ?thesis by (simp add: toggleTodo_absent)
qed

theorem absent_id_is_noop_witness:
  "''zz'' \<notin> set (map id_todo (items
      \<lparr>items = [\<lparr>id_todo = ''b2'', title = ''Walk dog'', done_todo = False, createdAt = 2000\<rparr>],
       doneItems = [\<lparr>id_todo = ''c3'', title = ''Call home'', done_todo = True, createdAt = 500\<rparr>]\<rparr>))
   \<and> ''zz'' \<notin> set (map id_todo (doneItems
      \<lparr>items = [\<lparr>id_todo = ''b2'', title = ''Walk dog'', done_todo = False, createdAt = 2000\<rparr>],
       doneItems = [\<lparr>id_todo = ''c3'', title = ''Call home'', done_todo = True, createdAt = 500\<rparr>]\<rparr>))
   \<and> toggleTodo
      \<lparr>items = [\<lparr>id_todo = ''b2'', title = ''Walk dog'', done_todo = False, createdAt = 2000\<rparr>],
       doneItems = [\<lparr>id_todo = ''c3'', title = ''Call home'', done_todo = True, createdAt = 500\<rparr>]\<rparr>
      ''zz''
     = \<lparr>items = [\<lparr>id_todo = ''b2'', title = ''Walk dog'', done_todo = False, createdAt = 2000\<rparr>],
        doneItems = [\<lparr>id_todo = ''c3'', title = ''Call home'', done_todo = True, createdAt = 500\<rparr>]\<rparr>
   \<and> removeTodo
      \<lparr>items = [\<lparr>id_todo = ''b2'', title = ''Walk dog'', done_todo = False, createdAt = 2000\<rparr>],
       doneItems = [\<lparr>id_todo = ''c3'', title = ''Call home'', done_todo = True, createdAt = 500\<rparr>]\<rparr>
      ''zz''
     = \<lparr>items = [\<lparr>id_todo = ''b2'', title = ''Walk dog'', done_todo = False, createdAt = 2000\<rparr>],
        doneItems = [\<lparr>id_todo = ''c3'', title = ''Call home'', done_todo = True, createdAt = 500\<rparr>]\<rparr>"
proof -
  let ?s = "\<lparr>items = [\<lparr>id_todo = ''b2'', title = ''Walk dog'', done_todo = False, createdAt = 2000\<rparr>],
       doneItems = [\<lparr>id_todo = ''c3'', title = ''Call home'', done_todo = True, createdAt = 500\<rparr>]\<rparr>"
  have a: "''zz'' \<notin> set (map id_todo (items ?s))" by simp
  have b: "''zz'' \<notin> set (map id_todo (doneItems ?s))" by simp
  show ?thesis using a b absent_id_is_noop [OF a b] by simp
qed

text \<open>
  C10: in every state reached from the initial state by actions of the four action
  creators, every todo in \<open>items\<close> has \<open>done = false\<close> and every todo in \<open>doneItems\<close>
  has \<open>done = true\<close>; so \<open>toggleTodo\<close>, on any id, does not take the branch that moves
  a found todo back to the front of \<open>items\<close>.
\<close>

theorem done_flags_in_reachable_states:
  assumes "list_all created acts"
  shows "list_all (\<lambda>t. \<not> done_todo t) (items (foldl todosReducer todosInitialState acts))
         \<and> list_all done_todo (doneItems (foldl todosReducer todosInitialState acts))
         \<and> toggleBranch (foldl todosReducer todosInitialState acts) i \<noteq> MoveBack"
proof -
  have "flagsOk todosInitialState"
    by (simp add: flagsOk_def todosInitialState_def)
  with assms have ok: "flagsOk (foldl todosReducer todosInitialState acts)"
    by (simp add: run_flagsOk)
  then have "toggleBranch (foldl todosReducer todosInitialState acts) i \<noteq> MoveBack"
    by (rule flagsOk_no_MoveBack)
  with ok show ?thesis by (simp add: flagsOk_def)
qed

theorem done_flags_in_reachable_states_witness:
  "list_all created
     [AddTodo (prepare ''a1'' 1000 ''Buy milk''), AddTodo (prepare ''b2'' 2000 ''Walk dog''),
      ToggleTodo ''a1'']
   \<and> foldl todosReducer todosInitialState
       [AddTodo (prepare ''a1'' 1000 ''Buy milk''), AddTodo (prepare ''b2'' 2000 ''Walk dog''),
        ToggleTodo ''a1'']
      = \<lparr>items = [\<lparr>id_todo = ''b2'', title = ''Walk dog'', done_todo = False, createdAt = 2000\<rparr>],
         doneItems = [\<lparr>id_todo = ''a1'', title = ''Buy milk'', done_todo = True, createdAt = 1000\<rparr>]\<rparr>
   \<and> toggleBranch (foldl todosReducer todosInitialState
       [AddTodo (prepare ''a1'' 1000 ''Buy milk''), AddTodo (prepare ''b2'' 2000 ''Walk dog''),
        ToggleTodo ''a1'']) ''b2'' \<noteq> MoveBack
   \<and> toggleBranch (foldl todosReducer todosInitialState
       [AddTodo (prepare ''a1'' 1000 ''Buy milk''), AddTodo (prepare ''b2'' 2000 ''Walk dog''),
        ToggleTodo ''a1'']) ''a1'' \<noteq> MoveBack"
proof -
  have run: "list_all created
     [AddTodo (prepare ''a1'' 1000 ''Buy milk''), AddTodo (prepare ''b2'' 2000 ''Walk dog''),
      ToggleTodo ''a1'']"
    by (simp add: prepare_def)
  show ?thesis
    using run done_flags_in_reachable_states [OF run, of "''b2''"]
      done_flags_in_reachable_states [OF run, of "''a1''"]
    by (simp add: todosInitialState_def prepare_def addTodo_def toggleTodo_def)
qed

end
